theory Spec2Isabelle
  imports Main "HOL-Library.Monad_Syntax" "HOL-Library.AList"
begin

section \<open>JavaScript values as they reach \<open>examples/messenger.js\<close>\<close>

text \<open>
  The webhook body, the transport's replies and the conversation contexts are JSON data
  held in JavaScript variables. A value is \<open>undefined\<close>, \<open>null\<close>, a boolean, a number, a
  string, an array or an object with its own properties in insertion order. Numbers are
  modelled as integers (page and user identifiers are).

  A JavaScript \<open>TypeError\<close> is the only exception the modelled code can raise. A
  computation that may raise returns an \<open>option\<close>, and \<open>None\<close> is the raised \<open>TypeError\<close>.
\<close>

datatype json =
    JUndefined
  | JNull
  | JBool bool
  | JNum int
  | JStr string
  | JArr "json list"
  | JObj "(string \<times> json) list"

abbreviation TypeError :: "'a option" where
  "TypeError \<equiv> None"

text \<open>Truthiness, as tested by \<open>if (v)\<close>, \<open>!v\<close>, \<open>v && w\<close> and \<open>v || w\<close>.\<close>

fun truthy :: "json \<Rightarrow> bool" where
  "truthy JUndefined = False"
| "truthy JNull = False"
| "truthy (JBool b) = b"
| "truthy (JNum n) = (n \<noteq> 0)"
| "truthy (JStr s) = (s \<noteq> [])"
| "truthy (JArr xs) = True"
| "truthy (JObj kvs) = True"

text \<open>
  \<open>a && b\<close> yields \<open>a\<close> when \<open>a\<close> is falsy and the value of \<open>b\<close> otherwise; \<open>a || b\<close> yields
  \<open>a\<close> when \<open>a\<close> is truthy. The right operand is only evaluated (and can only raise) in
  the other case.
\<close>

definition js_and :: "json \<Rightarrow> json option \<Rightarrow> json option" where
  "js_and a b = (if truthy a then b else Some a)"

definition js_or :: "json \<Rightarrow> json option \<Rightarrow> json option" where
  "js_or a b = (if truthy a then Some a else b)"

text \<open>
  The property read \<open>v.k\<close>, for the property names the program uses (none of them is
  defined on a prototype): reading a property of \<open>undefined\<close> or \<open>null\<close> raises, an
  object yields its own property or \<open>undefined\<close>, every other value yields \<open>undefined\<close>.
\<close>

fun get :: "json \<Rightarrow> string \<Rightarrow> json option" where
  "get JUndefined k = TypeError"
| "get JNull k = TypeError"
| "get (JObj kvs) k = Some (case map_of kvs k of Some v \<Rightarrow> v | None \<Rightarrow> JUndefined)"
| "get v k = Some JUndefined"

fun isArray :: "json \<Rightarrow> bool" where
  "isArray (JArr xs) = True"
| "isArray v = False"

text \<open>\<open>a.length\<close> and \<open>a[i]\<close>; the program reads them behind an \<open>Array.isArray\<close> guard only.\<close>

fun arrayLength :: "json \<Rightarrow> nat" where
  "arrayLength (JArr xs) = length xs"
| "arrayLength v = 0"

fun index :: "json \<Rightarrow> nat \<Rightarrow> json" where
  "index (JArr xs) i = (if i < length xs then xs ! i else JUndefined)"
| "index v i = JUndefined"

fun isObject :: "json \<Rightarrow> bool" where
  "isObject (JArr xs) = True"
| "isObject (JObj kvs) = True"
| "isObject v = False"

subsection \<open>Conversions used by the comparison \<open>==\<close>\<close>

text \<open>
  The conversions between strings and numbers belong to the language, not to the
  program, and the program is modelled for every such pair of conversions:
  \<open>StringToNumber rt s\<close> is \<open>Some n\<close> when the language reads the string \<open>s\<close> as the
  integer \<open>n\<close>, and \<open>None\<close> when it reads it as \<open>NaN\<close> or as any other number;
  \<open>NumberToString rt n\<close> is the string the language writes for \<open>n\<close>.
\<close>

record runtime =
  StringToNumber :: "string \<Rightarrow> int option"
  NumberToString :: "int \<Rightarrow> string"

fun commaJoin :: "string list \<Rightarrow> string" where
  "commaJoin [] = []"
| "commaJoin [s] = s"
| "commaJoin (s # t # r) = s @ CHR '','' # commaJoin (t # r)"

text \<open>
  \<open>ToString\<close>: an array is joined with commas, \<open>undefined\<close> and \<open>null\<close> elements giving
  the empty string. A parsed object inherits \<open>Object.prototype.toString\<close> unless the
  payload gave it a property named \<open>toString\<close> of its own; that property is data, not a
  function, and converting such an object raises \<open>TypeError\<close>.
\<close>

fun ToString :: "runtime \<Rightarrow> json \<Rightarrow> string option" where
  "ToString rt JUndefined = Some ''undefined''"
| "ToString rt JNull = Some ''null''"
| "ToString rt (JBool b) = Some (if b then ''true'' else ''false'')"
| "ToString rt (JNum n) = Some (NumberToString rt n)"
| "ToString rt (JStr s) = Some s"
| "ToString rt (JArr xs) =
     map_option commaJoin
       (those (map (\<lambda>x. if x = JUndefined \<or> x = JNull then Some [] else ToString rt x) xs))"
| "ToString rt (JObj kvs) =
     (if ''toString'' \<in> fst ` set kvs then TypeError else Some ''[object Object]'')"

definition ToPrimitive :: "runtime \<Rightarrow> json \<Rightarrow> json option" where
  "ToPrimitive rt v = (if isObject v then map_option JStr (ToString rt v) else Some v)"

text \<open>\<open>ToNumber\<close> on a primitive value; \<open>None\<close> is \<open>NaN\<close> or a number that is not an integer.\<close>

fun ToNumber :: "runtime \<Rightarrow> json \<Rightarrow> int option" where
  "ToNumber rt JUndefined = None"
| "ToNumber rt JNull = Some 0"
| "ToNumber rt (JBool b) = Some (if b then 1 else 0)"
| "ToNumber rt (JNum n) = Some n"
| "ToNumber rt (JStr s) = StringToNumber rt s"
| "ToNumber rt v = None"

text \<open>
  \<open>x === y\<close>. Two primitive values are strictly equal when they are the same value. An
  array or object is strictly equal to itself only; the objects this program compares
  come from separately parsed request bodies, so they are never the same object.
\<close>

fun strictEq :: "json \<Rightarrow> json \<Rightarrow> bool" where
  "strictEq (JArr xs) y = False"
| "strictEq (JObj kvs) y = False"
| "strictEq x y = (x = y)"

text \<open>
  \<open>x == y\<close> on two primitive values: values of one type compare strictly, \<open>null\<close> and
  \<open>undefined\<close> equal each other and nothing else, and a number, a string and a boolean of
  different types compare by their numeric values (\<open>NaN\<close> equals nothing).
\<close>

fun looseEqPrimitive :: "runtime \<Rightarrow> json \<Rightarrow> json \<Rightarrow> bool" where
  "looseEqPrimitive rt JUndefined y = (y = JUndefined \<or> y = JNull)"
| "looseEqPrimitive rt JNull y = (y = JUndefined \<or> y = JNull)"
| "looseEqPrimitive rt x JUndefined = False"
| "looseEqPrimitive rt x JNull = False"
| "looseEqPrimitive rt (JBool a) (JBool b) = (a = b)"
| "looseEqPrimitive rt (JNum a) (JNum b) = (a = b)"
| "looseEqPrimitive rt (JStr a) (JStr b) = (a = b)"
| "looseEqPrimitive rt x y = (ToNumber rt x \<noteq> None \<and> ToNumber rt x = ToNumber rt y)"

text \<open>
  \<open>x == y\<close>: two objects compare by identity; an object compared with a primitive
  value is first converted with \<open>ToPrimitive\<close>, which may raise.
\<close>

definition looseEq :: "runtime \<Rightarrow> json \<Rightarrow> json \<Rightarrow> bool option" where
  "looseEq rt x y =
     (if isObject x \<and> isObject y then Some False
      else do {
        px \<leftarrow> ToPrimitive rt x;
        py \<leftarrow> ToPrimitive rt y;
        Some (looseEqPrimitive rt px py)
      })"

section \<open>The inbound event router\<close>

text \<open>
  \<open>getFirstMessagingEntry(body)\<close>, with the configured \<open>FB_PAGE_ID\<close> (a number) and
  the language's conversions as parameters. The chain of \<open>&&\<close> is kept operand by operand; \<open>val || null\<close> closes it.
\<close>

definition getFirstMessagingEntry :: "runtime \<Rightarrow> int \<Rightarrow> json \<Rightarrow> json option" where
  "getFirstMessagingEntry rt FB_PAGE_ID body = do {
     obj \<leftarrow> get body ''object'';
     isPage \<leftarrow> looseEq rt obj (JStr ''page'');
     val \<leftarrow> js_and (JBool isPage) (do {
       entry \<leftarrow> get body ''entry'';
       js_and entry (
       js_and (JBool (isArray entry)) (
       js_and (JBool (arrayLength entry > 0)) (
       js_and (index entry 0) (do {
         entryId \<leftarrow> get (index entry 0) ''id'';
         idMatches \<leftarrow> looseEq rt entryId (JNum FB_PAGE_ID);
         js_and (JBool idMatches) (do {
           messaging \<leftarrow> get (index entry 0) ''messaging'';
           js_and messaging (
           js_and (JBool (isArray messaging)) (
           js_and (JBool (arrayLength messaging > 0)) (
           Some (index messaging 0))))
         })
       }))))
     });
     js_or val (Some JNull)
   }"

section \<open>The session store\<close>

text \<open>
  \<open>sessions\<close> is an object used as a dictionary \<open>sessionId -> {fbid, context}\<close>. Its keys
  are timestamps in ISO format, which \<open>Object.keys\<close> lists in insertion order, so the
  store is the list of its entries in that order. \<open>sessions[k] = v\<close> replaces the entry
  of an existing key in place and appends a new key otherwise (\<open>AList.update\<close>). The
  program reads \<open>sessions[k]\<close> at session ids only, never at the name of an inherited
  property, so a key that is not in the list reads as \<open>undefined\<close>.
\<close>

record session =
  fbid :: json
  "context" :: json

type_synonym sessions = "(string \<times> session) list"

text \<open>
  \<open>findOrCreateSession(fbid)\<close>. The loop over \<open>Object.keys(sessions)\<close> assigns
  \<open>sessionId\<close> at every entry whose \<open>fbid\<close> is strictly equal to the argument, so the last
  such entry wins; \<open>sessionId\<close> stays \<open>undefined\<close> (\<open>None\<close>) without one. \<open>!sessionId\<close>
  holds for \<open>undefined\<close> and for the empty string. \<open>now\<close> is the value of
  \<open>new Date().toISOString()\<close> at the call.
\<close>

definition findSession :: "json \<Rightarrow> sessions \<Rightarrow> string option" where
  "findSession u S =
     foldl (\<lambda>sessionId (k, s). if strictEq (fbid s) u then Some k else sessionId) None S"

definition findOrCreateSession :: "string \<Rightarrow> json \<Rightarrow> sessions \<Rightarrow> string \<times> sessions" where
  "findOrCreateSession now u S =
     (case findSession u S of
        Some k \<Rightarrow>
          if k \<noteq> [] then (k, S)
          else (now, AList.update now \<lparr>fbid = u, context = JObj []\<rparr> S)
      | None \<Rightarrow> (now, AList.update now \<lparr>fbid = u, context = JObj []\<rparr> S))"

text \<open>\<open>sessions[sessionId].context\<close> and \<open>sessions[sessionId].context = c\<close>.\<close>

definition getContext :: "string \<Rightarrow> sessions \<Rightarrow> json option" where
  "getContext sessionId S =
     (case map_of S sessionId of None \<Rightarrow> TypeError | Some s \<Rightarrow> Some (context s))"

definition setContext :: "string \<Rightarrow> json \<Rightarrow> sessions \<Rightarrow> sessions option" where
  "setContext sessionId c S =
     (case map_of S sessionId of
        None \<Rightarrow> TypeError
      | Some s \<Rightarrow> Some (AList.update sessionId (s\<lparr>context := c\<rparr>) S))"

section \<open>Effects\<close>

text \<open>
  What the program does to the outside is kept in a record: the session store, the
  requests handed to the transport \<open>fbReq\<close> (recipient and text), the calls of
  \<open>wit.runActions\<close> (session id, message, context), the lines written with
  \<open>console.log\<close>, and the arguments with which the engine's continuation was resumed.
\<close>

record world =
  sessions :: sessions
  sent :: "(json \<times> json) list"
  dispatched :: "(string \<times> json \<times> json) list"
  console :: "json list list"
  resumed :: "json list"

definition log :: "json list \<Rightarrow> world \<Rightarrow> world" where
  "log args w = w\<lparr>console := console w @ [args]\<rparr>"

text \<open>
  The continuation that the engine passes to an action, seen from outside: every
  invocation \<open>cb(c)\<close> is recorded (\<open>cb()\<close> passes \<open>undefined\<close>).
\<close>

definition resume :: "json \<Rightarrow> world \<Rightarrow> world option" where
  "resume c w = Some (w\<lparr>resumed := resumed w @ [c]\<rparr>)"

section \<open>The outbound message gateway\<close>

text \<open>
  \<open>fbMessage(recipientId, msg, cb)\<close> hands the request to the transport; \<open>reply\<close> is the
  pair \<open>(err, data)\<close> with which the transport later calls back. A callback \<open>cb\<close> is
  optional; when given it receives \<open>err || data.error && data.error.message\<close> and \<open>data\<close>.
\<close>

definition fbMessage ::
  "json \<Rightarrow> json \<Rightarrow> (json \<Rightarrow> json \<Rightarrow> world \<Rightarrow> world option) option \<Rightarrow> json \<times> json \<Rightarrow>
     world \<Rightarrow> world option" where
  "fbMessage recipientId msg cb reply w =
     (let w1 = w\<lparr>sent := sent w @ [(recipientId, msg)]\<rparr>; err = fst reply; data = snd reply
      in case cb of
           None \<Rightarrow> Some w1
         | Some k \<Rightarrow> do {
             e \<leftarrow> js_or err (do {
                    dataError \<leftarrow> get data ''error'';
                    js_and dataError (get dataError ''message'')
                  });
             k e data w1
           })"

section \<open>The action \<open>say\<close>\<close>

definition say ::
  "string \<Rightarrow> json \<Rightarrow> json \<Rightarrow> (json \<Rightarrow> world \<Rightarrow> world option) \<Rightarrow> json \<times> json \<Rightarrow>
     world \<Rightarrow> world option" where
  "say sessionId ctx message cb reply w =
     (case map_of (sessions w) sessionId of
        None \<Rightarrow> TypeError
      | Some s \<Rightarrow>
          let recipientId = fbid s
          in if truthy recipientId then
               fbMessage recipientId message
                 (Some (\<lambda>err data w1.
                    cb JUndefined
                      (if truthy err then
                         log [JStr ''Oops! An error occurred while forwarding the response to'',
                              recipientId, JStr '':'', err] w1
                       else w1)))
                 reply w
             else
               cb JUndefined
                 (log [JStr ''Oops! Couldn't find user for session:'', JStr sessionId] w))"

section \<open>The webhook handler\<close>

text \<open>
  The callback that \<open>wit.runActions\<close> calls when the dispatch loop has completed, for
  the dispatch started for \<open>sender\<close> and \<open>sessionId\<close>.
\<close>

definition runActionsCallback ::
  "json \<Rightarrow> string \<Rightarrow> json \<times> json \<Rightarrow> json \<Rightarrow> json \<Rightarrow> world \<Rightarrow> world option" where
  "runActionsCallback sender sessionId reply error ctx w =
     (if truthy error then
        fbMessage sender (JStr ''Oops! Got an error from Wit'') None reply
          (log [JStr ''Oops! Got an error from Wit:'', error] w)
      else do {
        S \<leftarrow> setContext sessionId ctx (sessions w);
        Some ((log [JStr ''Waiting for futher messages.''] w)\<lparr>sessions := S\<rparr>)
      })"

text \<open>
  \<open>app.post('/fb', ...)\<close> on the parsed request body: the result is the status sent with
  \<open>res.sendStatus\<close> and the effects, or the \<open>TypeError\<close> that escapes the handler.
\<close>

definition post_fb ::
  "runtime \<Rightarrow> int \<Rightarrow> string \<Rightarrow> json \<times> json \<Rightarrow> json \<Rightarrow> world \<Rightarrow>
     (nat \<times> world) option" where
  "post_fb rt FB_PAGE_ID now reply body w = do {
     messaging \<leftarrow> getFirstMessagingEntry rt FB_PAGE_ID body;
     accepted \<leftarrow> js_and messaging (do {
       message \<leftarrow> get messaging ''message'';
       content \<leftarrow> js_or message (get messaging ''postback'');
       js_and content (do {
         recipient \<leftarrow> get messaging ''recipient'';
         recipientId \<leftarrow> get recipient ''id'';
         Some (JBool (strictEq recipientId (JNum FB_PAGE_ID)))
       })
     });
     w' \<leftarrow>
       (if truthy accepted then do {
          senderObj \<leftarrow> get messaging ''sender'';
          sender \<leftarrow> get senderObj ''id'';
          let (sessionId, S) = findOrCreateSession now sender (sessions w);
          let w1 = w\<lparr>sessions := S\<rparr>;
          postback \<leftarrow> get messaging ''postback'';
          msg \<leftarrow> (if truthy postback then get postback ''payload''
                  else do { message \<leftarrow> get messaging ''message''; get message ''text'' });
          message \<leftarrow> get messaging ''message'';
          atts \<leftarrow> (if truthy message then get message ''attachments'' else Some JNull);
          if truthy atts then
            fbMessage sender (JStr ''Sorry I can only process text messages for now.'') None
              reply w1
          else if truthy msg then do {
            ctx \<leftarrow> getContext sessionId S;
            let w2 = log [msg] (log [JStr ''message: ''] w1);
            Some (w2\<lparr>dispatched := dispatched w2 @ [(sessionId, msg, ctx)]\<rparr>)
          }
          else Some w1
        }
        else Some w);
     Some (200, w')
   }"

section \<open>Sequences of lookups and the stores the program can reach\<close>

text \<open>The sessions held for a user: the entries that the loop of \<open>findOrCreateSession\<close> matches.\<close>

definition sessionsOf :: "json \<Rightarrow> sessions \<Rightarrow> sessions" where
  "sessionsOf u S = filter (\<lambda>(k, s). strictEq (fbid s) u) S"

text \<open>
  Successive calls \<open>findOrCreateSession(u)\<close> at the clock readings \<open>ts\<close>, with nothing else
  touching the store in between: the ids returned, and the store at the end.
\<close>

fun calls :: "string list \<Rightarrow> json \<Rightarrow> sessions \<Rightarrow> string list \<times> sessions" where
  "calls [] u S = ([], S)"
| "calls (t # ts) u S =
     (let (sessionId, S1) = findOrCreateSession t u S;
          (sessionIds, S2) = calls ts u S1
      in (sessionId # sessionIds, S2))"

text \<open>
  The program starts with the empty store \<open>{}\<close> and writes to it in two places only:
  \<open>findOrCreateSession\<close> (from the handler) and the assignment of the context in the
  completion callback. \<open>toISOString\<close> returns a string of 24 characters, never the empty
  string.
\<close>

inductive reachable :: "sessions \<Rightarrow> bool" where
  initial: "reachable []"
| lookup: "reachable S \<Longrightarrow> now \<noteq> [] \<Longrightarrow> reachable (snd (findOrCreateSession now u S))"
| replace: "reachable S \<Longrightarrow> setContext sessionId c S = Some S' \<Longrightarrow> reachable S'"

section \<open>Notions used to state the properties\<close>

text \<open>A value is nullish when it is \<open>undefined\<close> or \<open>null\<close>.\<close>

definition nullish :: "json \<Rightarrow> bool" where
  "nullish v = (v = JUndefined \<or> v = JNull)"

text \<open>The own property names of an object.\<close>

fun ownKeys :: "json \<Rightarrow> string set" where
  "ownKeys (JObj kvs) = fst ` set kvs"
| "ownKeys v = {}"

text \<open>The property \<open>k\<close> of \<open>v\<close> as a value: \<open>undefined\<close> where \<open>v\<close> has none.\<close>

definition property :: "json \<Rightarrow> string \<Rightarrow> json" where
  "property v k = (case get v k of None \<Rightarrow> JUndefined | Some x \<Rightarrow> x)"

text \<open>
  A response body embeds an error with a message: its \<open>error\<close> property is truthy and
  has a truthy \<open>message\<close>.
\<close>

definition embedsError :: "json \<Rightarrow> bool" where
  "embedsError data =
     (case get data ''error'' of
        None \<Rightarrow> False
      | Some dataError \<Rightarrow>
          truthy dataError \<and>
          (case get dataError ''message'' of None \<Rightarrow> False | Some m \<Rightarrow> truthy m))"

text \<open>
  The routing condition in the words of the specification: the body's \<open>object\<close> equals
  \<open>'page'\<close>, its \<open>entry\<close> is a non-empty array whose first element has an \<open>id\<close> equal to the
  page id and a non-empty array \<open>messaging\<close>. \<open>firstMessaging\<close> is the first element of
  that array. Equality is the \<open>==\<close> of the language.
\<close>

definition routable :: "runtime \<Rightarrow> int \<Rightarrow> json \<Rightarrow> bool" where
  "routable rt FB_PAGE_ID body =
     (looseEq rt (property body ''object'') (JStr ''page'') = Some True \<and>
      (case property body ''entry'' of
         JArr (e # es) \<Rightarrow>
           looseEq rt (property e ''id'') (JNum FB_PAGE_ID) = Some True \<and>
           (case property e ''messaging'' of JArr (m # ms) \<Rightarrow> True | _ \<Rightarrow> False)
       | _ \<Rightarrow> False))"

definition firstMessaging :: "json \<Rightarrow> json" where
  "firstMessaging body =
     (case property body ''entry'' of
        JArr (e # es) \<Rightarrow>
          (case property e ''messaging'' of JArr (m # ms) \<Rightarrow> m | _ \<Rightarrow> JUndefined)
      | _ \<Rightarrow> JUndefined)"

text \<open>
  A value is convertible when \<open>==\<close> can convert it to a primitive value without raising:
  it is not an object with a property named \<open>toString\<close> of its own, nor an array that holds
  a value that is not convertible.
\<close>

fun convertible :: "json \<Rightarrow> bool" where
  "convertible (JArr xs) = (\<forall>x \<in> set xs. convertible x)"
| "convertible (JObj kvs) = (''toString'' \<notin> fst ` set kvs)"
| "convertible v = True"

text \<open>
  The values that \<open>getFirstMessagingEntry\<close> compares with \<open>==\<close> on a body: its \<open>object\<close>,
  and, when that equals \<open>'page'\<close> and \<open>entry\<close> is an array with a truthy first element,
  the \<open>id\<close> of that element.
\<close>

definition comparedValues :: "runtime \<Rightarrow> json \<Rightarrow> json list" where
  "comparedValues rt body =
     property body ''object'' #
     (if looseEq rt (property body ''object'') (JStr ''page'') = Some True
      then (case property body ''entry'' of
              JArr (e # es) \<Rightarrow> if truthy e then [property e ''id''] else []
            | _ \<Rightarrow> [])
      else [])"

text \<open>A callback that prints the two arguments it receives.\<close>

definition printArgs :: "json \<Rightarrow> json \<Rightarrow> world \<Rightarrow> world option" where
  "printArgs e d w = Some (log [e, d] w)"

section \<open>Sample data\<close>

text \<open>
  A store with one session, for the user 7, and an event as the platform delivers it to
  the page 1234: the body of the request around one messaging entry.
\<close>

text \<open>
  The samples fix one pair of conversions, \<open>decimalRuntime\<close>. It agrees with the language
  on the signed decimal integer literals and takes every other string for not a number,
  where the language reads more strings as numbers. No property of the program rests on
  it: each is stated for every runtime, and the samples convert no string but \<open>'1234'\<close>.
\<close>

definition digitChar :: "nat \<Rightarrow> char" where
  "digitChar d = ''0123456789'' ! d"

fun decimal :: "nat \<Rightarrow> string" where
  "decimal n = (if n < 10 then [digitChar n] else decimal (n div 10) @ [digitChar (n mod 10)])"

declare decimal.simps [simp del]

definition writeDecimal :: "int \<Rightarrow> string" where
  "writeDecimal n = (if n < 0 then CHR ''-'' # decimal (nat (- n)) else decimal (nat n))"

definition digitValue :: "char \<Rightarrow> nat option" where
  "digitValue c = map_of (zip ''0123456789'' [0 ..< 10]) c"

fun decimalDigits :: "nat \<Rightarrow> string \<Rightarrow> nat option" where
  "decimalDigits acc [] = Some acc"
| "decimalDigits acc (c # cs) =
     (case digitValue c of None \<Rightarrow> None | Some d \<Rightarrow> decimalDigits (10 * acc + d) cs)"

definition unsignedDecimal :: "string \<Rightarrow> nat option" where
  "unsignedDecimal s = (if s = [] then None else decimalDigits 0 s)"

definition readDecimal :: "string \<Rightarrow> int option" where
  "readDecimal s =
     (case s of
        [] \<Rightarrow> None
      | c # r \<Rightarrow>
          if c = CHR ''-'' then map_option (\<lambda>n. - int n) (unsignedDecimal r)
          else if c = CHR ''+'' then map_option int (unsignedDecimal r)
          else map_option int (unsignedDecimal (c # r)))"

definition decimalRuntime :: runtime where
  "decimalRuntime = \<lparr>StringToNumber = readDecimal, NumberToString = writeDecimal\<rparr>"

definition sampleTime :: string where
  "sampleTime = ''2016-04-22T10:00:00.000Z''"

definition sampleSession :: session where
  "sampleSession = \<lparr>fbid = JNum 7, context = JObj [(''show'', JStr ''Breaking Bad'')]\<rparr>"

definition sampleWorld :: world where
  "sampleWorld =
     \<lparr>sessions = [(sampleTime, sampleSession)], sent = [], dispatched = [], console = [],
      resumed = []\<rparr>"

definition pageEvent :: "json \<Rightarrow> json" where
  "pageEvent messaging =
     JObj [(''object'', JStr ''page''),
           (''entry'', JArr [JObj [(''id'', JNum 1234), (''messaging'', JArr [messaging])]])]"

definition imageMessage :: json where
  "imageMessage = JObj [(''attachments'', JArr [JObj [(''type'', JStr ''image'')]])]"

definition imageEvent :: json where
  "imageEvent =
     JObj [(''sender'', JObj [(''id'', JNum 7)]),
           (''recipient'', JObj [(''id'', JNum 1234)]),
           (''message'', imageMessage)]"


section \<open>The session store: one session per user\<close>

lemma strictEq_iff: "strictEq x y \<longleftrightarrow> \<not> isObject x \<and> x = y"
  by (cases x) simp_all

lemma findSession_Nil: "findSession u [] = None"
  by (simp add: findSession_def)

lemma findSession_snoc:
  "findSession u (S @ [(k, s)]) = (if strictEq (fbid s) u then Some k else findSession u S)"
  by (simp add: findSession_def)

lemma findSession_sessionsOf:
  "findSession u S = (case sessionsOf u S of [] \<Rightarrow> None | m # ms \<Rightarrow> Some (fst (last (m # ms))))"
proof (induction S rule: rev_induct)
  case Nil
  show ?case by (simp add: findSession_Nil sessionsOf_def)
next
  case (snoc x S)
  obtain k s where x: "x = (k, s)" by (cases x)
  show ?case
    using snoc by (simp add: x findSession_snoc sessionsOf_def split: list.splits)
qed

lemma findSession_key:
  assumes "findSession u S = Some k"
  shows "k \<in> fst ` set S"
proof -
  from assms obtain m ms where ms: "sessionsOf u S = m # ms" and k: "k = fst (last (m # ms))"
    by (auto simp: findSession_sessionsOf split: list.splits)
  have "last (m # ms) \<in> set (sessionsOf u S)"
    unfolding ms by (rule last_in_set) simp
  then have "last (m # ms) \<in> set S"
    by (simp add: sessionsOf_def)
  then show ?thesis
    unfolding k by (rule imageI)
qed

lemma sessionsOf_update_new:
  assumes "sessionsOf u S = []" and "strictEq (fbid n) u"
  shows "sessionsOf u (AList.update t n S) = [(t, n)]"
  using assms by (induction S) (auto simp: sessionsOf_def split: if_splits)

lemma length_sessionsOf_update:
  "length (sessionsOf x (AList.update t n S))
     \<le> length (sessionsOf x S) + (if strictEq (fbid n) x then 1 else 0)"
  by (induction S) (auto simp: sessionsOf_def)

lemma length_sessionsOf_replace:
  assumes "map_of S k = Some s" and "fbid s' = fbid s"
  shows "length (sessionsOf x (AList.update k s' S)) = length (sessionsOf x S)"
  using assms by (induction S) (auto simp: sessionsOf_def)

lemma findOrCreateSession_cases [consumes 1, case_names found created]:
  assumes keys: "[] \<notin> fst ` set S"
  obtains (found) k where "findSession u S = Some k" "k \<noteq> []" "findOrCreateSession now u S = (k, S)"
  | (created) "sessionsOf u S = []"
      "findOrCreateSession now u S = (now, AList.update now \<lparr>fbid = u, context = JObj []\<rparr> S)"
proof (cases "findSession u S")
  case None
  then have "sessionsOf u S = []"
    by (simp add: findSession_sessionsOf split: list.splits)
  with None created show ?thesis
    by (simp add: findOrCreateSession_def)
next
  case (Some k)
  from findSession_key [OF Some] keys have "k \<noteq> []" by metis
  with Some found show ?thesis
    by (simp add: findOrCreateSession_def)
qed

lemma reachable_invariant:
  assumes "reachable S"
  shows "[] \<notin> fst ` set S \<and> (\<forall>v. length (sessionsOf v S) \<le> 1)"
  using assms
proof (induction rule: reachable.induct)
  case initial
  show ?case by (simp add: sessionsOf_def)
next
  case (lookup S now u)
  then have keys: "[] \<notin> fst ` set S" and one: "\<And>v. length (sessionsOf v S) \<le> 1"
    by simp_all
  from keys show ?case
  proof (cases rule: findOrCreateSession_cases [of S u now])
    case (found k)
    with keys one show ?thesis by simp
  next
    case created
    let ?n = "\<lparr>fbid = u, context = JObj []\<rparr>"
    have "length (sessionsOf v (AList.update now ?n S)) \<le> 1" for v
    proof (cases "strictEq u v")
      case True
      then have "v = u" by (simp add: strictEq_iff)
      with created(1) True show ?thesis
        by (simp add: sessionsOf_update_new)
    next
      case False
      with length_sessionsOf_update [of v now ?n S] one [of v] show ?thesis
        by simp
    qed
    moreover have "[] \<notin> fst ` set (AList.update now ?n S)"
      using keys \<open>now \<noteq> []\<close> by (simp add: dom_update)
    ultimately show ?thesis
      by (simp add: created(2))
  qed
next
  case (replace S sessionId c S')
  then have keys: "[] \<notin> fst ` set S" and one: "\<And>v. length (sessionsOf v S) \<le> 1"
    by simp_all
  from replace.hyps(2) obtain s where s: "map_of S sessionId = Some s"
    and S': "S' = AList.update sessionId (s\<lparr>context := c\<rparr>) S"
    by (auto simp: setContext_def split: option.splits)
  from s have "(sessionId, s) \<in> set S"
    by (rule map_of_SomeD)
  then have "sessionId \<in> fst ` set S"
    by (rule rev_image_eqI) simp
  with keys have "[] \<notin> fst ` set S'"
    by (auto simp: S' dom_update)
  moreover have "length (sessionsOf v S') \<le> 1" for v
    using one [of v] length_sessionsOf_replace [OF s, of "s\<lparr>context := c\<rparr>" v]
    by (simp add: S')
  ultimately show ?case by simp
qed

lemma calls_found:
  assumes "findSession u S = Some k" and "k \<noteq> []"
  shows "calls ts u S = (replicate (length ts) k, S)"
  using assms by (induction ts) (simp_all add: findOrCreateSession_def)

text \<open>
  Claim C1, as the code has it. From every store the program can reach, a sequence of
  calls of \<open>findOrCreateSession\<close> with one user id that is a primitive value (a string, a
  number, a boolean, \<open>null\<close> or \<open>undefined\<close>), the first of them at clock
  reading \<open>t\<close>, returns the same session id at every call and leaves the store as the
  first call left it. When no session is held for the user, the first call creates the
  record; the whole sequence adds at most one record, exactly one session is held for
  that user afterwards, and no user has more than one.
\<close>

theorem findOrCreateSession_single_session:
  assumes "reachable S" and "\<not> isObject u" and "t \<noteq> []"
  shows "calls (t # ts) u S =
           (replicate (Suc (length ts)) (fst (findOrCreateSession t u S)),
            snd (findOrCreateSession t u S))
         \<and> (sessionsOf u S = [] \<longrightarrow>
              snd (calls (t # ts) u S) = AList.update t \<lparr>fbid = u, context = JObj []\<rparr> S)
         \<and> length (snd (calls (t # ts) u S)) \<le> Suc (length S)
         \<and> length (sessionsOf u (snd (calls (t # ts) u S))) = 1
         \<and> (\<forall>v. length (sessionsOf v (snd (calls (t # ts) u S))) \<le> 1)"
proof -
  from reachable_invariant [OF assms(1)] have keys: "[] \<notin> fst ` set S" by simp
  let ?k = "fst (findOrCreateSession t u S)" and ?S1 = "snd (findOrCreateSession t u S)"
  have self: "strictEq u u"
    using assms(2) by (simp add: strictEq_iff)
  from keys
  have found1: "findSession u ?S1 = Some ?k \<and> ?k \<noteq> [] \<and> length ?S1 \<le> Suc (length S)
      \<and> (sessionsOf u S = [] \<longrightarrow> ?S1 = AList.update t \<lparr>fbid = u, context = JObj []\<rparr> S)"
  proof (cases rule: findOrCreateSession_cases [of S u t])
    case (found k)
    then show ?thesis by (auto simp: findSession_sessionsOf split: list.splits)
  next
    case created
    have "sessionsOf u (AList.update t \<lparr>fbid = u, context = JObj []\<rparr> S)
            = [(t, \<lparr>fbid = u, context = JObj []\<rparr>)]"
      using created(1) self by (simp add: sessionsOf_update_new)
    moreover have "length (AList.update t \<lparr>fbid = u, context = JObj []\<rparr> S) \<le> Suc (length S)"
      by (induction S) auto
    ultimately show ?thesis
      using assms(3) by (simp add: created(2) findSession_sessionsOf)
  qed
  then have "calls ts u ?S1 = (replicate (length ts) ?k, ?S1)"
    by (simp add: calls_found)
  then have run: "calls (t # ts) u S = (replicate (Suc (length ts)) ?k, ?S1)"
    by (simp add: case_prod_beta)
  have "reachable ?S1"
    using assms(1,3) by (rule reachable.lookup)
  from reachable_invariant [OF this] have one: "\<And>v. length (sessionsOf v ?S1) \<le> 1"
    by simp
  from found1 have "sessionsOf u ?S1 \<noteq> []"
    by (auto simp: findSession_sessionsOf split: list.splits)
  with one [of u] have "length (sessionsOf u ?S1) = 1"
    by (cases "sessionsOf u ?S1") simp_all
  with run found1 one show ?thesis by simp
qed

theorem findOrCreateSession_single_session_witness:
  "reachable [] \<and> \<not> isObject (JNum 7) \<and> ''2016-04-22T10:00:00.000Z'' \<noteq> []
   \<and> calls [''2016-04-22T10:00:00.000Z'', ''2016-04-22T10:00:00.000Z'', ''2016-04-22T10:00:03.250Z'']
        (JNum 7) []
       = ([''2016-04-22T10:00:00.000Z'', ''2016-04-22T10:00:00.000Z'', ''2016-04-22T10:00:00.000Z''],
          [(''2016-04-22T10:00:00.000Z'', \<lparr>fbid = JNum 7, context = JObj []\<rparr>)])"
  using findOrCreateSession_single_session [OF reachable.initial, of "JNum 7"
      "''2016-04-22T10:00:00.000Z''"
      "[''2016-04-22T10:00:00.000Z'', ''2016-04-22T10:00:03.250Z'']"]
  by (simp add: reachable.initial findOrCreateSession_def findSession_def)

text \<open>
  Claim C1 as stated fails for a user id that is an array or an object. The handler
  passes \<open>messaging.sender.id\<close> on as it arrives; the array of one request is never
  strictly equal to the array of another, so the second call finds no session and
  creates a second record for the same id.
\<close>

theorem findOrCreateSession_array_id_counterexample:
  "calls [''2016-04-22T10:00:00.000Z'', ''2016-04-22T10:00:03.250Z''] (JArr [JNum 7]) []
     = ([''2016-04-22T10:00:00.000Z'', ''2016-04-22T10:00:03.250Z''],
        [(''2016-04-22T10:00:00.000Z'', \<lparr>fbid = JArr [JNum 7], context = JObj []\<rparr>),
         (''2016-04-22T10:00:03.250Z'', \<lparr>fbid = JArr [JNum 7], context = JObj []\<rparr>)])"
  by (simp add: findOrCreateSession_def findSession_def)

text \<open>
  Claim C2. The session id is the clock reading, so it is not always new: when the first
  events of two users arrive within the same millisecond, the second call returns the
  id that is already in the store and overwrites the first user's session.
\<close>

theorem findOrCreateSession_timestamp_collision:
  "findOrCreateSession ''2016-04-22T10:00:00.000Z'' (JNum 7) []
     = (''2016-04-22T10:00:00.000Z'',
        [(''2016-04-22T10:00:00.000Z'', \<lparr>fbid = JNum 7, context = JObj []\<rparr>)])
   \<and> findOrCreateSession ''2016-04-22T10:00:00.000Z'' (JNum 8)
        [(''2016-04-22T10:00:00.000Z'', \<lparr>fbid = JNum 7, context = JObj []\<rparr>)]
     = (''2016-04-22T10:00:00.000Z'',
        [(''2016-04-22T10:00:00.000Z'', \<lparr>fbid = JNum 8, context = JObj []\<rparr>)])"
  by (simp add: findOrCreateSession_def findSession_def)

section \<open>The gateway: what the callback receives\<close>

lemma get_Some: "\<not> nullish v \<Longrightarrow> \<exists>x. get v k = Some x"
  by (cases v) (simp_all add: nullish_def)

lemma get_truthy: "truthy v \<Longrightarrow> \<exists>x. get v k = Some x"
  by (cases v) simp_all

lemma truthy_get: "get v k = Some x \<Longrightarrow> truthy x \<Longrightarrow> truthy v"
  by (cases v) auto

lemma surfaced_error:
  assumes "truthy err \<or> \<not> nullish data"
  shows "\<exists>e. js_or err (get data ''error'' \<bind> (\<lambda>dataError.
                 js_and dataError (get dataError ''message''))) = Some e
             \<and> (truthy e \<longleftrightarrow> truthy err \<or> embedsError data)"
proof (cases "truthy err")
  case True
  then show ?thesis
    by (simp add: js_or_def)
next
  case False
  with assms obtain dataError where de: "get data ''error'' = Some dataError"
    using get_Some by blast
  show ?thesis
  proof (cases "truthy dataError")
    case True
    then obtain m where "get dataError ''message'' = Some m"
      using get_truthy by blast
    with False True de show ?thesis
      by (simp add: js_or_def js_and_def embedsError_def)
  next
    case nt: False
    with False de show ?thesis
      by (simp add: js_or_def js_and_def embedsError_def)
  qed
qed

text \<open>
  Claim C6, as the code has it. When the transport's reply carries an error or a
  response body, the callback given to \<open>fbMessage\<close> is invoked once, after the request was
  handed over, with an error value and the response body; the error value is truthy
  exactly when the transport's error is truthy or the body embeds a truthy \<open>error\<close>
  with a truthy \<open>message\<close>.
\<close>

theorem fbMessage_callback:
  assumes "truthy err \<or> \<not> nullish data"
  shows "\<exists>e. (\<forall>k w. fbMessage recipientId msg (Some k) (err, data) w
                      = k e data (w\<lparr>sent := sent w @ [(recipientId, msg)]\<rparr>))
             \<and> (truthy e \<longleftrightarrow> truthy err \<or> embedsError data)"
proof -
  from surfaced_error [OF assms] obtain e
    where "js_or err (get data ''error'' \<bind> (\<lambda>dataError.
             js_and dataError (get dataError ''message''))) = Some e"
      and "truthy e \<longleftrightarrow> truthy err \<or> embedsError data"
    by blast
  then show ?thesis
    by (intro exI [of _ e]) (simp add: fbMessage_def)
qed

theorem fbMessage_callback_witness:
  "(truthy JNull \<or>
      \<not> nullish (JObj [(''error'', JObj [(''message'', JStr ''Invalid OAuth access token.''),
                                        (''code'', JNum 190)])]))
   \<and> (\<exists>e. (\<forall>k w. fbMessage (JNum 7) (JStr ''hi'') (Some k)
                     (JNull, JObj [(''error'', JObj [(''message'', JStr ''Invalid OAuth access token.''),
                                                     (''code'', JNum 190)])]) w
                   = k e (JObj [(''error'', JObj [(''message'', JStr ''Invalid OAuth access token.''),
                                                  (''code'', JNum 190)])])
                       (w\<lparr>sent := sent w @ [(JNum 7, JStr ''hi'')]\<rparr>))
          \<and> truthy e)"
  using fbMessage_callback [of JNull
      "JObj [(''error'', JObj [(''message'', JStr ''Invalid OAuth access token.''),
                               (''code'', JNum 190)])]" "JNum 7" "JStr ''hi''"]
  by (simp add: nullish_def embedsError_def)

text \<open>
  Claim C6 as stated fails: the transport succeeds and the response body embeds an error
  field without a message; the callback (here one that prints its arguments) receives
  \<open>undefined\<close> as its error.
\<close>

theorem fbMessage_error_without_message_counterexample:
  "''error'' \<in> ownKeys (JObj [(''error'', JObj [(''code'', JNum 190)])])
   \<and> fbMessage (JNum 7) (JStr ''hi'') (Some printArgs)
       (JNull, JObj [(''error'', JObj [(''code'', JNum 190)])])
       \<lparr>sessions = [], sent = [], dispatched = [], console = [], resumed = []\<rparr>
     = Some \<lparr>sessions = [], sent = [(JNum 7, JStr ''hi'')], dispatched = [],
             console = [[JUndefined, JObj [(''error'', JObj [(''code'', JNum 190)])]]],
             resumed = []\<rparr>"
  by (simp add: fbMessage_def js_or_def js_and_def printArgs_def log_def)

section \<open>The action \<open>say\<close> resumes the engine once\<close>

text \<open>
  On an existing session, and a transport reply that carries an error or a response
  body, \<open>say\<close> does what it does to the outside (at most one request to the transport, no
  write to the store) and then invokes its continuation \<open>cb\<close> exactly once, without an
  argument: with the recipient found and the send successful, with the send in error,
  and with no recipient id in the session.
\<close>

theorem say_resumes_once:
  assumes "map_of (sessions w) sessionId = Some s"
    and "truthy (fst reply) \<or> \<not> nullish (snd reply)"
  shows "\<exists>w1. (\<forall>cb. say sessionId ctx message cb reply w = cb JUndefined w1)
              \<and> resumed w1 = resumed w \<and> sessions w1 = sessions w
              \<and> sent w1 = (if truthy (fbid s) then sent w @ [(fbid s, message)] else sent w)
              \<and> say sessionId ctx message resume reply w
                  = Some (w1\<lparr>resumed := resumed w @ [JUndefined]\<rparr>)"
proof (cases "truthy (fbid s)")
  case False
  with assms(1) show ?thesis
    by (intro exI [of _ "log [JStr ''Oops! Couldn't find user for session:'', JStr sessionId] w"])
      (simp add: say_def log_def resume_def Let_def)
next
  case True
  from surfaced_error [OF assms(2)] obtain e
    where e: "js_or (fst reply) (get (snd reply) ''error'' \<bind> (\<lambda>dataError.
                js_and dataError (get dataError ''message''))) = Some e"
    by blast
  let ?w0 = "w\<lparr>sent := sent w @ [(fbid s, message)]\<rparr>"
  let ?w1 = "if truthy e
             then log [JStr ''Oops! An error occurred while forwarding the response to'',
                       fbid s, JStr '':'', e] ?w0
             else ?w0"
  from assms(1) True e show ?thesis
    by (intro exI [of _ ?w1]) (simp add: say_def fbMessage_def log_def resume_def Let_def)
qed

theorem say_resumes_once_witness:
  "map_of (sessions sampleWorld) sampleTime = Some sampleSession
   \<and> (truthy (fst (JStr ''ETIMEDOUT'', JUndefined))
        \<or> \<not> nullish (snd (JStr ''ETIMEDOUT'', JUndefined)))
   \<and> say sampleTime (JObj []) (JStr ''hello'') resume (JStr ''ETIMEDOUT'', JUndefined)
        sampleWorld
     = Some (sampleWorld
         \<lparr>sent := [(JNum 7, JStr ''hello'')],
          console := [[JStr ''Oops! An error occurred while forwarding the response to'',
                       JNum 7, JStr '':'', JStr ''ETIMEDOUT'']],
          resumed := [JUndefined]\<rparr>)"
  using say_resumes_once [of sampleWorld sampleTime sampleSession
      "(JStr ''ETIMEDOUT'', JUndefined)" "JObj []" "JStr ''hello''"]
  by (simp add: sampleWorld_def sampleSession_def say_def fbMessage_def js_or_def log_def
      resume_def Let_def)

text \<open>
  Claim C7. The callback that \<open>fbMessage\<close> gives to the transport reads \<open>data.error\<close>
  without a guard on \<open>data\<close>. When the transport reports no error and no response body,
  the read raises \<open>TypeError\<close> before the callback of \<open>say\<close> runs: the continuation \<open>cb\<close>
  is never invoked.
\<close>

theorem say_reply_without_body_raises:
  "say sampleTime (JObj []) (JStr ''hello'') resume (JNull, JUndefined) sampleWorld = TypeError"
  by (simp add: sampleWorld_def sampleSession_def say_def fbMessage_def js_or_def Let_def)

section \<open>The completion callback and the stored context\<close>

text \<open>
  Claim C3. When the dispatch completes with an error (a truthy first argument, as an
  \<open>Error\<close> object or a message is), the completion callback leaves the store, and with it
  the session's context, as it was; it only tells the sender.
\<close>

theorem runActionsCallback_error_keeps_context:
  assumes "truthy error"
  shows "\<exists>w'. runActionsCallback sender sessionId reply error ctx w = Some w'
           \<and> sessions w' = sessions w
           \<and> getContext sessionId (sessions w') = getContext sessionId (sessions w)
           \<and> sent w' = sent w @ [(sender, JStr ''Oops! Got an error from Wit'')]"
  using assms by (simp add: runActionsCallback_def fbMessage_def log_def)

theorem runActionsCallback_error_keeps_context_witness:
  "truthy (JStr ''No 'book_table' action found.'')
   \<and> (\<exists>w'. runActionsCallback (JNum 7) sampleTime (JNull, JNull)
              (JStr ''No 'book_table' action found.'')
              (JObj [(''show'', JStr ''The Bone Collector'')]) sampleWorld = Some w'
          \<and> sessions w' = [(sampleTime, sampleSession)]
          \<and> getContext sampleTime (sessions w') = Some (JObj [(''show'', JStr ''Breaking Bad'')])
          \<and> sent w' = [(JNum 7, JStr ''Oops! Got an error from Wit'')])"
  using runActionsCallback_error_keeps_context [of "JStr ''No 'book_table' action found.''"
      "JNum 7" sampleTime "(JNull, JNull)" "JObj [(''show'', JStr ''The Bone Collector'')]"
      sampleWorld]
  by (simp add: sampleWorld_def sampleSession_def getContext_def)

text \<open>
  Claim C8. After the callback of an error-free completion has replaced the context of a
  session in the store with \<open>c\<close>, reading that session's context yields \<open>c\<close>.
\<close>

theorem runActionsCallback_round_trip:
  assumes "map_of (sessions w) sessionId = Some s" and "\<not> truthy error"
  shows "runActionsCallback sender sessionId reply error c w
           \<bind> (\<lambda>w'. getContext sessionId (sessions w')) = Some c"
  using assms
  by (simp add: runActionsCallback_def setContext_def getContext_def log_def update_conv')

theorem runActionsCallback_round_trip_witness:
  "map_of (sessions sampleWorld) sampleTime = Some sampleSession
   \<and> \<not> truthy JNull
   \<and> runActionsCallback (JNum 7) sampleTime (JNull, JNull) JNull
        (JObj [(''reminder'', JBool True)]) sampleWorld
        \<bind> (\<lambda>w'. getContext sampleTime (sessions w'))
      = Some (JObj [(''reminder'', JBool True)])"
  using runActionsCallback_round_trip [of sampleWorld sampleTime sampleSession
      JNull "JNum 7" "(JNull, JNull)" "JObj [(''reminder'', JBool True)]"]
  by (simp add: sampleWorld_def)

text \<open>
  Claim C9. The replacement is an overwrite: the stored context is the new one, so it
  has no key that the new context lacks; the session keeps its \<open>fbid\<close>, every other
  session is as before, and the keys of the store and their order do not change.
\<close>

theorem runActionsCallback_overwrites:
  assumes "map_of (sessions w) sessionId = Some s" and "\<not> truthy error"
  shows "\<exists>w' s'. runActionsCallback sender sessionId reply error c w = Some w'
           \<and> map_of (sessions w') sessionId = Some s'
           \<and> context s' = c
           \<and> ownKeys (context s') \<subseteq> ownKeys c
           \<and> fbid s' = fbid s
           \<and> (\<forall>k. k \<noteq> sessionId \<longrightarrow> map_of (sessions w') k = map_of (sessions w) k)
           \<and> map fst (sessions w') = map fst (sessions w)"
proof -
  from assms(1) have "(sessionId, s) \<in> set (sessions w)"
    by (rule map_of_SomeD)
  then have "sessionId \<in> fst ` set (sessions w)"
    by (rule rev_image_eqI) simp
  then have keys: "map fst (AList.update sessionId (s\<lparr>context := c\<rparr>) (sessions w))
                     = map fst (sessions w)"
    by (simp add: update_keys)
  show ?thesis
    using assms keys
    by (simp add: runActionsCallback_def setContext_def log_def update_conv')
qed

theorem runActionsCallback_overwrites_witness:
  "map_of (sessions sampleWorld) sampleTime = Some sampleSession
   \<and> \<not> truthy JNull
   \<and> (\<exists>w' s'. runActionsCallback (JNum 7) sampleTime (JNull, JNull) JNull
                 (JObj [(''reminder'', JBool True)]) sampleWorld = Some w'
          \<and> map_of (sessions w') sampleTime = Some s'
          \<and> context s' = JObj [(''reminder'', JBool True)]
          \<and> ''show'' \<notin> ownKeys (context s')
          \<and> fbid s' = JNum 7
          \<and> map fst (sessions w') = [sampleTime])"
proof -
  have held: "map_of (sessions sampleWorld) sampleTime = Some sampleSession"
    and ok: "\<not> truthy JNull"
    by (simp_all add: sampleWorld_def)
  from runActionsCallback_overwrites [OF held ok, of "JNum 7" "(JNull, JNull)"
      "JObj [(''reminder'', JBool True)]"]
  obtain w' s' where "runActionsCallback (JNum 7) sampleTime (JNull, JNull) JNull
                 (JObj [(''reminder'', JBool True)]) sampleWorld = Some w'"
    and "map_of (sessions w') sampleTime = Some s'"
    and "context s' = JObj [(''reminder'', JBool True)]"
    and "ownKeys (context s') \<subseteq> ownKeys (JObj [(''reminder'', JBool True)])"
    and "fbid s' = fbid sampleSession"
    and "map fst (sessions w') = map fst (sessions sampleWorld)"
    by blast
  then have "runActionsCallback (JNum 7) sampleTime (JNull, JNull) JNull
                 (JObj [(''reminder'', JBool True)]) sampleWorld = Some w'
          \<and> map_of (sessions w') sampleTime = Some s'
          \<and> context s' = JObj [(''reminder'', JBool True)]
          \<and> ''show'' \<notin> ownKeys (context s')
          \<and> fbid s' = JNum 7
          \<and> map fst (sessions w') = [sampleTime]"
    by (simp add: sampleWorld_def sampleSession_def)
  then have "\<exists>w' s'. runActionsCallback (JNum 7) sampleTime (JNull, JNull) JNull
                 (JObj [(''reminder'', JBool True)]) sampleWorld = Some w'
          \<and> map_of (sessions w') sampleTime = Some s'
          \<and> context s' = JObj [(''reminder'', JBool True)]
          \<and> ''show'' \<notin> ownKeys (context s')
          \<and> fbid s' = JNum 7
          \<and> map fst (sessions w') = [sampleTime]"
    by (intro exI)
  with held ok show ?thesis
    by (intro conjI)
qed

section \<open>The router\<close>

lemma those_Some: "(\<forall>x \<in> set xs. x \<noteq> None) \<Longrightarrow> \<exists>ys. those xs = Some ys"
  by (induction xs) auto

lemma those_None: "x \<in> set xs \<Longrightarrow> x = None \<Longrightarrow> those xs = None"
  by (induction xs) (auto split: option.splits)

lemma convertible_ToString: "convertible v \<longleftrightarrow> ToString rt v \<noteq> None"
proof (induction rt v rule: ToString.induct)
  case (6 rt xs)
  let ?f = "\<lambda>x. if x = JUndefined \<or> x = JNull then Some [] else ToString rt x"
  show ?case
  proof
    assume "convertible (JArr xs)"
    with 6 have "\<forall>y \<in> set (map ?f xs). y \<noteq> None"
      by auto
    from those_Some [OF this] show "ToString rt (JArr xs) \<noteq> None"
      by auto
  next
    assume conv: "ToString rt (JArr xs) \<noteq> None"
    have "convertible x" if "x \<in> set xs" for x
    proof (rule ccontr)
      assume no: "\<not> convertible x"
      then have "x \<noteq> JUndefined" and "x \<noteq> JNull"
        by auto
      with that no 6 have "?f x = None"
        by auto
      moreover from that have "?f x \<in> set (map ?f xs)"
        by (rule imageI [of x "set xs" ?f, simplified set_map [symmetric]])
      ultimately have "those (map ?f xs) = None"
        by (rule those_None [rotated])
      with conv show False by simp
    qed
    then show "convertible (JArr xs)" by simp
  qed
qed simp_all

lemma convertible_primitive: "\<not> isObject x \<Longrightarrow> convertible x"
  by (cases x) simp_all

lemma looseEq_convertible:
  assumes "\<not> isObject y"
  shows "convertible x \<longleftrightarrow> (\<exists>b. looseEq rt x y = Some b)"
  using assms convertible_ToString [of x rt] convertible_primitive [of x]
  by (cases "isObject x") (auto simp: looseEq_def ToPrimitive_def)

lemma truthy_not_nullish: "truthy v \<Longrightarrow> \<not> nullish v"
  by (auto simp: nullish_def)

lemma comparedValues_object: "property body ''object'' \<in> set (comparedValues rt body)"
  unfolding comparedValues_def by (rule list.set_intros(1))

lemma comparedValues_id:
  assumes "looseEq rt (property body ''object'') (JStr ''page'') = Some True"
    and "property body ''entry'' = JArr (e # es)" and "truthy e"
  shows "comparedValues rt body = [property body ''object'', property e ''id'']"
  using assms by (simp add: comparedValues_def)

lemma comparedValues_no_id:
  assumes "\<not> (looseEq rt (property body ''object'') (JStr ''page'') = Some True
            \<and> (\<exists>e es. property body ''entry'' = JArr (e # es) \<and> truthy e))"
  shows "comparedValues rt body = [property body ''object'']"
  using assms by (auto simp: comparedValues_def split: json.splits list.splits)

lemma get_property: "\<not> nullish v \<Longrightarrow> get v k = Some (property v k)"
  by (cases v) (simp_all add: property_def nullish_def)

lemma property_falsy: "\<not> truthy v \<Longrightarrow> property v k = JUndefined"
  by (cases v) (simp_all add: property_def)

lemma looseEq_undefined_num: "looseEq rt JUndefined (JNum n) = Some False"
  by (simp add: looseEq_def ToPrimitive_def)

text \<open>
  Claim C5, as the code has it. On a body that is not \<open>null\<close> or \<open>undefined\<close> and whose
  compared values are convertible, \<open>getFirstMessagingEntry\<close> returns the first messaging
  entry exactly when the body is routable and that entry is truthy; on every other such
  body it returns \<open>null\<close>. It has no effect and reads nothing but its argument and the
  page id.
\<close>

theorem getFirstMessagingEntry_routes:
  assumes "\<not> nullish body" and "\<forall>v \<in> set (comparedValues rt body). convertible v"
  shows "getFirstMessagingEntry rt FB_PAGE_ID body =
           Some (if routable rt FB_PAGE_ID body \<and> truthy (firstMessaging body)
                 then firstMessaging body else JNull)"
proof -
  from assms(1) have obj: "get body ''object'' = Some (property body ''object'')"
    and ent: "get body ''entry'' = Some (property body ''entry'')"
    by (simp_all add: get_property)
  from assms(2) comparedValues_object have "convertible (property body ''object'')"
    by blast
  then obtain b where b: "looseEq rt (property body ''object'') (JStr ''page'') = Some b"
    using looseEq_convertible [of "JStr ''page''"] by auto
  show ?thesis
  proof (cases b)
    case False
    with obj b show ?thesis
      by (simp add: getFirstMessagingEntry_def routable_def js_and_def js_or_def)
  next
    case True
    note page = this
    show ?thesis
    proof (cases "\<exists>e es. property body ''entry'' = JArr (e # es)")
      case False
      then have "\<not> routable rt FB_PAGE_ID body"
        by (auto simp: routable_def split: json.splits list.splits)
      moreover from False have "js_and (property body ''entry'')
          (js_and (JBool (isArray (property body ''entry'')))
            (js_and (JBool (0 < arrayLength (property body ''entry''))) X))
          = Some (if truthy (property body ''entry'') then JBool False else property body ''entry'')" for X
        by (cases "property body ''entry''") (auto simp: js_and_def neq_Nil_conv)
      ultimately show ?thesis
        using obj b page ent
        by (simp add: getFirstMessagingEntry_def js_and_def js_or_def)
    next
      case True
      then obtain e es where entry: "property body ''entry'' = JArr (e # es)" by blast
      show ?thesis
      proof (cases "truthy e")
        case False
        then have "property e ''id'' = JUndefined" by (rule property_falsy)
        then have "\<not> routable rt FB_PAGE_ID body"
          by (simp add: routable_def entry looseEq_undefined_num)
        with False obj b page ent entry show ?thesis
          by (simp add: getFirstMessagingEntry_def js_and_def js_or_def)
      next
        case True
        then have ge: "get e k = Some (property e k)" for k
          by (simp add: get_property truthy_not_nullish)
        from b page entry True
        have "comparedValues rt body = [property body ''object'', property e ''id'']"
          by (simp add: comparedValues_id)
        with assms(2) have "convertible (property e ''id'')"
          by simp
        then obtain c where c: "looseEq rt (property e ''id'') (JNum FB_PAGE_ID) = Some c"
          using looseEq_convertible [of "JNum FB_PAGE_ID"] by auto
        have tail: "js_and (property e ''messaging'')
            (js_and (JBool (isArray (property e ''messaging'')))
              (js_and (JBool (0 < arrayLength (property e ''messaging'')))
                (Some (index (property e ''messaging'') 0)))) \<bind> (\<lambda>val. js_or val (Some JNull))
            = Some (case property e ''messaging'' of
                      JArr (m # ms) \<Rightarrow> if truthy m then m else JNull
                    | _ \<Rightarrow> JNull)"
          by (cases "property e ''messaging''")
            (auto simp: js_and_def js_or_def split: list.splits)
        show ?thesis
        proof (cases c)
          case False
          with True obj b page ent entry ge c show ?thesis
            by (simp add: getFirstMessagingEntry_def routable_def js_and_def js_or_def)
        next
          case idOk: True
          have "getFirstMessagingEntry rt FB_PAGE_ID body =
                  Some (case property e ''messaging'' of
                          JArr (m # ms) \<Rightarrow> if truthy m then m else JNull
                        | _ \<Rightarrow> JNull)"
            using True obj b page ent entry ge c idOk tail
            by (simp add: getFirstMessagingEntry_def js_and_def)
          with b page entry c idOk show ?thesis
            by (simp add: routable_def firstMessaging_def split: json.splits list.splits)
        qed
      qed
    qed
  qed
qed

theorem getFirstMessagingEntry_routes_witness:
  "\<not> nullish (JObj [(''object'', JStr ''page''),
                   (''entry'', JArr [JObj [(''id'', JStr ''1234''),
                      (''messaging'', JArr [JObj [(''sender'', JObj [(''id'', JNum 7)])]])]])])
   \<and> list_all convertible
        (comparedValues decimalRuntime
           (JObj [(''object'', JStr ''page''),
                  (''entry'', JArr [JObj [(''id'', JStr ''1234''),
                     (''messaging'', JArr [JObj [(''sender'', JObj [(''id'', JNum 7)])]])]])]))
   \<and> getFirstMessagingEntry decimalRuntime 1234
        (JObj [(''object'', JStr ''page''),
               (''entry'', JArr [JObj [(''id'', JStr ''1234''),
                  (''messaging'', JArr [JObj [(''sender'', JObj [(''id'', JNum 7)])]])]])])
       = Some (JObj [(''sender'', JObj [(''id'', JNum 7)])])"
proof -
  let ?body = "JObj [(''object'', JStr ''page''),
                     (''entry'', JArr [JObj [(''id'', JStr ''1234''),
                        (''messaging'', JArr [JObj [(''sender'', JObj [(''id'', JNum 7)])]])]])]"
  have shape: "\<not> nullish ?body"
    by (simp add: nullish_def)
  have "comparedValues decimalRuntime ?body = [JStr ''page'', JStr ''1234'']"
    by code_simp
  then have conv: "\<forall>v \<in> set (comparedValues decimalRuntime ?body). convertible v"
    by simp
  have "routable decimalRuntime 1234 ?body"
    and "firstMessaging ?body = JObj [(''sender'', JObj [(''id'', JNum 7)])]"
    by code_simp+
  with getFirstMessagingEntry_routes [OF shape conv, of 1234] shape conv
  show ?thesis by (simp add: list_all_iff)
qed

text \<open>
  The function raises on exactly the bodies that the statement above leaves out.
\<close>

lemma getFirstMessagingEntry_raises:
  assumes "\<not> nullish body"
  shows "getFirstMessagingEntry rt FB_PAGE_ID body = TypeError
           \<longleftrightarrow> \<not> (\<forall>v \<in> set (comparedValues rt body). convertible v)"
proof
  assume "getFirstMessagingEntry rt FB_PAGE_ID body = TypeError"
  with getFirstMessagingEntry_routes [OF assms, of rt FB_PAGE_ID]
  show "\<not> (\<forall>v \<in> set (comparedValues rt body). convertible v)"
    by auto
next
  assume no: "\<not> (\<forall>v \<in> set (comparedValues rt body). convertible v)"
  from assms have obj: "get body ''object'' = Some (property body ''object'')"
    and ent: "get body ''entry'' = Some (property body ''entry'')"
    by (simp_all add: get_property)
  show "getFirstMessagingEntry rt FB_PAGE_ID body = TypeError"
  proof (cases "convertible (property body ''object'')")
    case False
    then have "looseEq rt (property body ''object'') (JStr ''page'') = None"
      using looseEq_convertible [of "JStr ''page''" "property body ''object''" rt] by auto
    with obj show ?thesis
      by (simp add: getFirstMessagingEntry_def)
  next
    case True
    with no have "comparedValues rt body \<noteq> [property body ''object'']"
      by auto
    with comparedValues_no_id [of rt body]
    obtain e es where page: "looseEq rt (property body ''object'') (JStr ''page'') = Some True"
      and entry: "property body ''entry'' = JArr (e # es)" and e: "truthy e"
      by blast
    with no True have id: "\<not> convertible (property e ''id'')"
      by (simp add: comparedValues_id)
    from e have "get e ''id'' = Some (property e ''id'')"
      by (simp add: get_property truthy_not_nullish)
    moreover from id have "looseEq rt (property e ''id'') (JNum FB_PAGE_ID) = None"
      using looseEq_convertible [of "JNum FB_PAGE_ID" "property e ''id''" rt] by auto
    ultimately show ?thesis
      using obj ent page entry e
      by (simp add: getFirstMessagingEntry_def js_and_def)
  qed
qed

text \<open>
  A body whose first messaging entry is \<open>0\<close>: whatever the conversions of the language
  are, it is routable and the function returns \<open>null\<close>.
\<close>

lemma getFirstMessagingEntry_falsy_entry:
  "routable rt 1234
     (JObj [(''object'', JStr ''page''),
            (''entry'', JArr [JObj [(''id'', JNum 1234), (''messaging'', JArr [JNum 0])]])])
   \<and> getFirstMessagingEntry rt 1234
       (JObj [(''object'', JStr ''page''),
              (''entry'', JArr [JObj [(''id'', JNum 1234), (''messaging'', JArr [JNum 0])]])])
       = Some JNull"
  by (simp add: routable_def property_def getFirstMessagingEntry_def
      looseEq_def ToPrimitive_def js_and_def js_or_def)

text \<open>
  Claim C5 as stated fails: every condition of the claim holds of this body, its first
  messaging entry is \<open>0\<close>, and the function returns \<open>null\<close> (here at the sample runtime).
\<close>

theorem getFirstMessagingEntry_falsy_entry_counterexample:
  "routable decimalRuntime 1234
     (JObj [(''object'', JStr ''page''),
            (''entry'', JArr [JObj [(''id'', JNum 1234), (''messaging'', JArr [JNum 0])]])])
   \<and> firstMessaging
       (JObj [(''object'', JStr ''page''),
              (''entry'', JArr [JObj [(''id'', JNum 1234), (''messaging'', JArr [JNum 0])]])])
       = JNum 0
   \<and> getFirstMessagingEntry decimalRuntime 1234
       (JObj [(''object'', JStr ''page''),
              (''entry'', JArr [JObj [(''id'', JNum 1234), (''messaging'', JArr [JNum 0])]])])
       = Some JNull"
  by (simp add: routable_def firstMessaging_def property_def getFirstMessagingEntry_def
      looseEq_def ToPrimitive_def js_and_def js_or_def)

section \<open>The handler\<close>

text \<open>
  Claim C10. For an event that the router accepts, addressed to the page, with a sender
  and with attachments in its message, the handler answers 200, hands exactly one request
  to the transport, the fixed text for the sender, and starts no dispatch. The store,
  whose keys are timestamps and so not empty, is what \<open>findOrCreateSession\<close> leaves:
  unchanged when the sender has a session, and otherwise changed under the new session's
  key only.
\<close>

theorem post_fb_attachments:
  assumes routed: "getFirstMessagingEntry rt FB_PAGE_ID body = Some messaging"
    and message: "get messaging ''message'' = Some message"
    and attachments: "get message ''attachments'' = Some atts" "truthy atts"
    and recipient: "get messaging ''recipient'' = Some recipient"
      "get recipient ''id'' = Some (JNum FB_PAGE_ID)"
    and sender: "get messaging ''sender'' = Some senderObj" "get senderObj ''id'' = Some sender"
    and keys: "[] \<notin> fst ` set (sessions w)"
  shows "\<exists>w'. post_fb rt FB_PAGE_ID now reply body w = Some (200, w')
           \<and> sent w' = sent w @ [(sender, JStr ''Sorry I can only process text messages for now.'')]
           \<and> dispatched w' = dispatched w
           \<and> sessions w' = snd (findOrCreateSession now sender (sessions w))
           \<and> (sessionsOf sender (sessions w) \<noteq> [] \<longrightarrow> sessions w' = sessions w)
           \<and> (\<forall>k. k \<noteq> now \<longrightarrow> map_of (sessions w') k = map_of (sessions w) k)"
proof -
  from attachments have tm: "truthy message" by (rule truthy_get)
  with message have tmsg: "truthy messaging" by (rule truthy_get)
  then obtain postback where postback: "get messaging ''postback'' = Some postback"
    using get_truthy by blast
  have "\<exists>msg. (if truthy postback then get postback ''payload''
               else get messaging ''message'' \<bind> (\<lambda>m. get m ''text'')) = Some msg"
    using message tm get_truthy [of postback "''payload''"] get_truthy [of message "''text''"]
    by auto
  then obtain msg where msg: "(if truthy postback then get postback ''payload''
               else get messaging ''message'' \<bind> (\<lambda>m. get m ''text'')) = Some msg"
    by blast
  let ?S = "snd (findOrCreateSession now sender (sessions w))"
  let ?w' = "w\<lparr>sessions := ?S,
               sent := sent w @ [(sender, JStr ''Sorry I can only process text messages for now.'')]\<rparr>"
  have run: "post_fb rt FB_PAGE_ID now reply body w = Some (200, ?w')"
    using routed message tm tmsg attachments recipient sender postback msg
    by (simp add: post_fb_def js_and_def js_or_def fbMessage_def case_prod_beta Let_def)
  from keys have store: "(sessionsOf sender (sessions w) \<noteq> [] \<longrightarrow> ?S = sessions w)
      \<and> (\<forall>k. k \<noteq> now \<longrightarrow> map_of ?S k = map_of (sessions w) k)"
    by (cases rule: findOrCreateSession_cases [of "sessions w" sender now])
      (simp_all add: findSession_sessionsOf update_conv' split: list.splits)
  from run store show ?thesis
    by (intro exI [of _ ?w']) simp
qed

theorem post_fb_attachments_witness:
  "getFirstMessagingEntry decimalRuntime 1234 (pageEvent imageEvent) = Some imageEvent
   \<and> get imageEvent ''message'' = Some imageMessage
   \<and> get imageMessage ''attachments'' = Some (JArr [JObj [(''type'', JStr ''image'')]])
   \<and> truthy (JArr [JObj [(''type'', JStr ''image'')]])
   \<and> get imageEvent ''recipient'' = Some (JObj [(''id'', JNum 1234)])
   \<and> get (JObj [(''id'', JNum 1234)]) ''id'' = Some (JNum 1234)
   \<and> get imageEvent ''sender'' = Some (JObj [(''id'', JNum 7)])
   \<and> get (JObj [(''id'', JNum 7)]) ''id'' = Some (JNum 7)
   \<and> [] \<notin> fst ` set (sessions sampleWorld)
   \<and> (\<exists>w'. post_fb decimalRuntime 1234 ''2016-04-22T10:05:00.000Z'' (JNull, JNull) (pageEvent imageEvent)
              sampleWorld = Some (200, w')
          \<and> sent w' = [(JNum 7, JStr ''Sorry I can only process text messages for now.'')]
          \<and> dispatched w' = []
          \<and> sessions w' = [(sampleTime, sampleSession)])"
proof -
  have routed: "getFirstMessagingEntry decimalRuntime 1234 (pageEvent imageEvent) = Some imageEvent"
    by (simp add: pageEvent_def imageEvent_def getFirstMessagingEntry_def looseEq_def
        ToPrimitive_def js_and_def js_or_def)
  have message: "get imageEvent ''message'' = Some imageMessage"
    and atts: "get imageMessage ''attachments'' = Some (JArr [JObj [(''type'', JStr ''image'')]])"
      "truthy (JArr [JObj [(''type'', JStr ''image'')]])"
    and recipient: "get imageEvent ''recipient'' = Some (JObj [(''id'', JNum 1234)])"
      "get (JObj [(''id'', JNum 1234)]) ''id'' = Some (JNum 1234)"
    and sender: "get imageEvent ''sender'' = Some (JObj [(''id'', JNum 7)])"
      "get (JObj [(''id'', JNum 7)]) ''id'' = Some (JNum 7)"
    and keys: "[] \<notin> fst ` set (sessions sampleWorld)"
    by (simp_all add: imageEvent_def imageMessage_def sampleWorld_def sampleTime_def)
  have held: "sessionsOf (JNum 7) (sessions sampleWorld) \<noteq> []"
    by (simp add: sessionsOf_def sampleWorld_def sampleSession_def)
  from post_fb_attachments [OF routed message atts recipient sender keys,
      of "''2016-04-22T10:05:00.000Z''" "(JNull, JNull)"] held
  have "\<exists>w'. post_fb decimalRuntime 1234 ''2016-04-22T10:05:00.000Z'' (JNull, JNull) (pageEvent imageEvent)
              sampleWorld = Some (200, w')
          \<and> sent w' = [(JNum 7, JStr ''Sorry I can only process text messages for now.'')]
          \<and> dispatched w' = []
          \<and> sessions w' = [(sampleTime, sampleSession)]"
    by (auto simp: sampleWorld_def)
  with routed message atts recipient sender keys show ?thesis
    by blast
qed

text \<open>
  Events that the handler ignores: when the router returns \<open>null\<close>, and when the entry
  names a recipient whose \<open>id\<close> is not the page id (or is missing), the handler answers
  200 and does nothing else.
\<close>

lemma post_fb_unrouted:
  assumes "getFirstMessagingEntry rt FB_PAGE_ID body = Some JNull"
  shows "post_fb rt FB_PAGE_ID now reply body w = Some (200, w)"
  using assms by (simp add: post_fb_def js_and_def)

lemma post_fb_other_recipient:
  assumes "getFirstMessagingEntry rt FB_PAGE_ID body = Some messaging"
    and "get messaging ''recipient'' = Some recipient"
    and "get recipient ''id'' = Some recipientId"
    and "\<not> strictEq recipientId (JNum FB_PAGE_ID)"
  shows "post_fb rt FB_PAGE_ID now reply body w = Some (200, w)"
proof -
  from assms(2) obtain message postback
    where "get messaging ''message'' = Some message"
      and "get messaging ''postback'' = Some postback"
    by (cases messaging) simp_all
  with assms show ?thesis
    by (simp add: post_fb_def js_and_def js_or_def)
qed

text \<open>
  Claim C4. The handler reads \<open>messaging.recipient.id\<close> without a guard on
  \<open>messaging.recipient\<close>: on an event that is well formed except that its messaging entry
  has no \<open>recipient\<close>, the read raises \<open>TypeError\<close> and the handler does not reach
  \<open>res.sendStatus(200)\<close>, whatever the conversions of the language are.
\<close>

theorem post_fb_missing_recipient_raises:
  "post_fb rt 1234 ''2016-04-22T10:05:00.000Z'' (JNull, JNull)
     (JObj [(''object'', JStr ''page''),
            (''entry'', JArr [JObj [(''id'', JNum 1234),
               (''messaging'', JArr [JObj [(''sender'', JObj [(''id'', JNum 7)]),
                                           (''message'', JObj [(''text'', JStr ''hi'')])]])]])])
     \<lparr>sessions = [], sent = [], dispatched = [], console = [], resumed = []\<rparr>
   = TypeError"
  by (simp add: post_fb_def getFirstMessagingEntry_def looseEq_def ToPrimitive_def
      js_and_def js_or_def)


end
